theory Spec2Isabelle
  imports Main
begin

section \<open>Decoded messages\<close>

text \<open>
  The server works on the values \<open>json.loads\<close> returns. A JSON object is a Python
  dict, kept here as an association list read with \<open>map_of\<close>; JSON numbers are
  the integers (a number with a fraction or an exponent is a Python float, which is never
  a \<open>str\<close>, a \<open>list\<close> or a \<open>bool\<close> and is left out).
\<close>

datatype json =
    JNull
  | JBool bool
  | JInt int
  | JStr string
  | JList "json list"
  | JDict "(string \<times> json) list"

text \<open>
  The exceptions no handler of the source catches. The last three are raised by
  \<open>json.loads\<close> itself and are not \<open>JSONDecodeError\<close>: \<open>UnicodeDecodeError\<close>
  on a binary frame that is not UTF-8, \<open>RecursionError\<close> on a text nested too deep
  (a thousand \<open>[\<close>), \<open>ValueError\<close> on an integer of more than 4300 digits.
\<close>

datatype py_exc =
    AttributeError | KeyError | TypeError
  | UnicodeDecodeError | RecursionError | ValueError

text \<open>The classes the schema names: \<open>str\<close>, \<open>list\<close>, \<open>bool\<close> and \<open>object\<close>.\<close>

datatype pytype = PyStr | PyList | PyBool | PyObject

fun isinstance :: "json \<Rightarrow> pytype \<Rightarrow> bool" where
  "isinstance v PyObject = True"
| "isinstance (JStr s) PyStr = True"
| "isinstance (JList xs) PyList = True"
| "isinstance (JBool b) PyBool = True"
| "isinstance v t = False"

definition schema :: "(string \<times> (string \<times> pytype) list) list" where
  "schema =
    [(''register'', [(''user_id'', PyStr), (''whitelist'', PyList)]),
     (''message'', [(''recipient_id'', PyStr), (''payload'', PyObject)]),
     (''whitelist_add'', [(''user_id'', PyStr)]),
     (''whitelist_remove'', [(''user_id'', PyStr)]),
     (''whitelist_toggle_wildcard'', [(''enabled'', PyBool)])]"

text \<open>The loop over \<open>required_fields.items()\<close> of \<open>validate_schema\<close>.\<close>

fun check_fields :: "(string \<times> json) list \<Rightarrow> (string \<times> pytype) list \<Rightarrow> bool" where
  "check_fields data [] = True"
| "check_fields data ((field, expected_type) # rest) =
     (case map_of data field of
        None \<Rightarrow> False
      | Some v \<Rightarrow>
          if expected_type \<noteq> PyObject \<and> \<not> isinstance v expected_type then False
          else check_fields data rest)"

text \<open>
  \<open>validate_schema\<close> on a dict. \<open>data.get("type")\<close> is \<open>None\<close> for a missing
  key, and \<open>None\<close> is not a \<open>str\<close>.
\<close>

definition validate_schema :: "(string \<times> json) list \<Rightarrow> bool" where
  "validate_schema data =
     (case map_of data ''type'' of
        Some (JStr msg_type) \<Rightarrow>
          (case map_of schema msg_type of
             None \<Rightarrow> False
           | Some required_fields \<Rightarrow> check_fields data required_fields)
      | _ \<Rightarrow> False)"

section \<open>Whitelists\<close>

text \<open>
  The values the source assigns to \<open>client_info["whitelist"]\<close>: the list \<open>["*"]\<close>
  (lines 99 and 222), a Python set (\<open>set(whitelist)\<close>, \<open>{user_to_modify}\<close>, \<open>set()\<close>,
  and the sets \<open>add\<close> and \<open>discard\<close> update in place) and the empty dict \<open>{}\<close>
  (line 195). A set is kept as the list of its elements, pairwise unequal under Python's
  \<open>==\<close>, in the order they were added. That order is a device of the model only:
  what the server sends of a set is its elements (\<open>SendUpdated\<close>), and membership
  does not depend on it.
\<close>

datatype wl_value = StarList | SetOf "json list" | EmptyDict

text \<open>A list or a dict has no hash: \<open>set([[1]])\<close> raises \<open>TypeError\<close>.\<close>

fun hashable :: "json \<Rightarrow> bool" where
  "hashable (JList xs) = False"
| "hashable (JDict d) = False"
| "hashable v = True"

text \<open>Python's \<open>==\<close> on hashable decoded values: \<open>True == 1\<close> and \<open>False == 0\<close>.\<close>

fun py_eq :: "json \<Rightarrow> json \<Rightarrow> bool" where
  "py_eq (JBool b) (JInt i) = (i = (if b then 1 else 0))"
| "py_eq (JInt i) (JBool b) = (i = (if b then 1 else 0))"
| "py_eq x y = (x = y)"

definition set_add :: "json list \<Rightarrow> json \<Rightarrow> json list" where
  "set_add s x = (if list_ex (\<lambda>y. py_eq y x) s then s else s @ [x])"

definition set_discard :: "json list \<Rightarrow> json \<Rightarrow> json list" where
  "set_discard s x = filter (\<lambda>y. \<not> py_eq y x) s"

definition py_set :: "json list \<Rightarrow> py_exc + json list" where
  "py_set xs = (if list_all hashable xs then Inr (foldl set_add [] xs) else Inl TypeError)"

text \<open>\<open>x in w\<close> for the three shapes.\<close>

fun py_in :: "json \<Rightarrow> wl_value \<Rightarrow> bool" where
  "py_in x StarList = py_eq (JStr ''*'') x"
| "py_in x (SetOf s) = list_ex (\<lambda>y. py_eq y x) s"
| "py_in x EmptyDict = False"

section \<open>The registry\<close>

type_synonym conn = nat

record client_info =
  user_id :: string
  room_name :: string
  whitelist :: wl_value

record state =
  CLIENTS :: "conn \<rightharpoonup> client_info"
  USER_ID_MAP :: "string \<rightharpoonup> conn"

definition init_state :: state where
  "init_state = \<lparr>CLIENTS = Map.empty, USER_ID_MAP = Map.empty\<rparr>"

text \<open>
  What a handler does to the transport: \<open>send_json\<close> and \<open>websocket.close\<close>.
  \<open>SendUpdated ws text S\<close> is \<open>send_json\<close> of the \<open>whitelist_updated\<close>
  message with that text whose \<open>current_whitelist\<close> is \<open>list(w)\<close> for a Python
  set \<open>w\<close> with the elements \<open>S\<close>: a JSON array of them, each once, in the
  iteration order of the set. That order depends on the hash seed of the process and is
  not fixed here.
\<close>

datatype action =
    Send conn json
  | SendUpdated conn string "json set"
  | Close conn nat string

text \<open>
  What \<open>json.loads(message)\<close> gives: \<open>NotJson\<close> is \<open>JSONDecodeError\<close>, the one
  failure the source catches; \<open>LoadsError e\<close> is a failure with another exception;
  \<open>Json v\<close> is the decoded value. Then what
  \<open>asyncio.wait_for(websocket.recv(), timeout=10.0)\<close> gives.
\<close>

datatype decoded = NotJson | LoadsError py_exc | Json json

datatype recv = TimeoutError | ConnectionClosed | Message decoded

definition quote :: "string \<Rightarrow> string" where
  "quote s = [CHR 0x27] @ s @ [CHR 0x27]"

section \<open>Registration\<close>

definition register_client ::
  "conn \<Rightarrow> string \<Rightarrow> recv \<Rightarrow> state \<Rightarrow> py_exc + (bool \<times> state \<times> action list)" where
  "register_client websocket room r s =
     (case r of
        TimeoutError \<Rightarrow> Inr (False, s, [])
      | ConnectionClosed \<Rightarrow> Inr (False, s, [])
      | Message NotJson \<Rightarrow> Inr (False, s, [])
      | Message (LoadsError e) \<Rightarrow> Inl e
      | Message (Json (JDict data)) \<Rightarrow>
          if validate_schema data \<and> map_of data ''type'' = Some (JStr ''register'') then
            (case (map_of data ''user_id'', map_of data ''whitelist'') of
               (Some (JStr uid), Some (JList wl)) \<Rightarrow>
                 if uid = [] \<or> USER_ID_MAP s uid \<noteq> None then
                   Inr (False, s,
                     [Close websocket 1008 ''User ID is invalid or already in use.''])
                 else
                   (case (if wl = [JStr ''*''] then Inr StarList
                          else map_sum id SetOf (py_set wl)) of
                      Inl e \<Rightarrow> Inl e
                    | Inr w \<Rightarrow>
                        Inr (True,
                          s\<lparr>CLIENTS := (CLIENTS s)(websocket \<mapsto>
                               \<lparr>user_id = uid, room_name = room, whitelist = w\<rparr>),
                            USER_ID_MAP := (USER_ID_MAP s)(uid \<mapsto> websocket)\<rparr>,
                          []))
             | _ \<Rightarrow> Inl KeyError)
          else
            Inr (False, s,
              [Close websocket 1002
                (''Protocol error: First message must be a valid '' @ quote ''register'' @
                 '' type.'')])
      | Message (Json v) \<Rightarrow> Inl AttributeError)"

definition unregister_client :: "conn \<Rightarrow> state \<Rightarrow> state" where
  "unregister_client websocket s =
     (case CLIENTS s websocket of
        None \<Rightarrow> s
      | Some info \<Rightarrow>
          s\<lparr>CLIENTS := (CLIENTS s)(websocket := None),
            USER_ID_MAP := (USER_ID_MAP s)(user_id info := None)\<rparr>)"

section \<open>Routing\<close>

definition generic_failure_msg :: "string \<Rightarrow> json" where
  "generic_failure_msg recipient_id =
     JDict [(''type'', JStr ''error''),
            (''message'', JStr (''Could not deliver message to '' @ quote recipient_id @
               ''. The user may be offline or has not whitelisted you.''))]"

definition is_whitelisted :: "string \<Rightarrow> wl_value \<Rightarrow> bool" where
  "is_whitelisted sender_id w = (w = StarList \<or> py_in (JStr sender_id) w)"

definition handle_direct_message ::
  "conn \<Rightarrow> (string \<times> json) list \<Rightarrow> state \<Rightarrow> py_exc + action list" where
  "handle_direct_message sender_ws data s =
     (case CLIENTS s sender_ws of
        None \<Rightarrow> Inl KeyError
      | Some sender_info \<Rightarrow>
          (case map_of data ''recipient_id'' of
             Some (JStr recipient_id) \<Rightarrow>
               (case USER_ID_MAP s recipient_id of
                  None \<Rightarrow> Inr [Send sender_ws (generic_failure_msg recipient_id)]
                | Some recipient_ws \<Rightarrow>
                    (case CLIENTS s recipient_ws of
                       None \<Rightarrow> Inl KeyError
                     | Some recipient_info \<Rightarrow>
                         if room_name recipient_info = room_name sender_info \<and>
                            is_whitelisted (user_id sender_info) (whitelist recipient_info)
                         then
                           (case map_of data ''payload'' of
                              None \<Rightarrow> Inl KeyError
                            | Some payload \<Rightarrow>
                                Inr [Send recipient_ws
                                  (JDict [(''type'', JStr ''incoming_message''),
                                          (''sender_id'', JStr (user_id sender_info)),
                                          (''payload'', payload)])])
                         else Inr [Send sender_ws (generic_failure_msg recipient_id)]))
           | _ \<Rightarrow> Inl KeyError))"

section \<open>Whitelist commands\<close>

definition whitelist_updated :: "string \<Rightarrow> json \<Rightarrow> json" where
  "whitelist_updated text current_list =
     JDict [(''type'', JStr ''whitelist_updated''),
            (''message'', JStr text),
            (''current_whitelist'', current_list)]"

text \<open>
  The acknowledgement of \<open>handle_whitelist_command\<close>: \<open>current_list\<close> is
  \<open>list(w)\<close> for a set and the value itself otherwise.
\<close>

fun command_ack :: "conn \<Rightarrow> string \<Rightarrow> wl_value \<Rightarrow> action" where
  "command_ack websocket text (SetOf xs) = SendUpdated websocket text (set xs)"
| "command_ack websocket text StarList =
     Send websocket (whitelist_updated text (JList [JStr ''*'']))"
| "command_ack websocket text EmptyDict = Send websocket (whitelist_updated text (JDict []))"

text \<open>
  The acknowledgement of \<open>handle_whitelist_toggle\<close>: \<open>current_list\<close> is the value
  itself for a list and \<open>list(w)\<close> otherwise (the keys, for a dict).
\<close>

fun toggle_ack :: "conn \<Rightarrow> string \<Rightarrow> wl_value \<Rightarrow> action" where
  "toggle_ack websocket text StarList =
     Send websocket (whitelist_updated text (JList [JStr ''*'']))"
| "toggle_ack websocket text (SetOf xs) = SendUpdated websocket text (set xs)"
| "toggle_ack websocket text EmptyDict = Send websocket (whitelist_updated text (JList []))"

definition set_whitelist :: "conn \<Rightarrow> client_info \<Rightarrow> wl_value \<Rightarrow> state \<Rightarrow> state" where
  "set_whitelist websocket info w s =
     s\<lparr>CLIENTS := (CLIENTS s)(websocket \<mapsto> info\<lparr>whitelist := w\<rparr>)\<rparr>"

text \<open>
  The branch of \<open>handle_whitelist_command\<close> on \<open>command\<close>: the new whitelist and
  \<open>action_text\<close>. \<open>add\<close> and \<open>discard\<close> are methods of a set only.
\<close>

definition whitelist_action ::
  "string \<Rightarrow> json \<Rightarrow> wl_value \<Rightarrow> py_exc + (wl_value \<times> string)" where
  "whitelist_action command user_to_modify w =
     (if command = ''whitelist_add'' then
        (case w of
           StarList \<Rightarrow> Inr (SetOf [user_to_modify], ''converted from wildcard and added'')
         | SetOf xs \<Rightarrow> Inr (SetOf (set_add xs user_to_modify), ''added'')
         | EmptyDict \<Rightarrow> Inl AttributeError)
      else if command = ''whitelist_remove'' then
        (case w of
           StarList \<Rightarrow> Inr (EmptyDict, ''removed'')
         | SetOf xs \<Rightarrow> Inr (SetOf (set_discard xs user_to_modify), ''removed'')
         | EmptyDict \<Rightarrow> Inl AttributeError)
      else Inr (w, ''''))"

definition handle_whitelist_command ::
  "conn \<Rightarrow> (string \<times> json) list \<Rightarrow> state \<Rightarrow> py_exc + (state \<times> action list)" where
  "handle_whitelist_command websocket data s =
     (case CLIENTS s websocket of
        None \<Rightarrow> Inl KeyError
      | Some info \<Rightarrow>
          (case (map_of data ''user_id'', map_of data ''type'') of
             (Some (JStr user_to_modify), Some (JStr command)) \<Rightarrow>
               (case whitelist_action command (JStr user_to_modify) (whitelist info) of
                  Inl e \<Rightarrow> Inl e
                | Inr (w, action_text) \<Rightarrow>
                    Inr (set_whitelist websocket info w s,
                      [command_ack websocket
                        (''User '' @ quote user_to_modify @ '' was '' @ action_text @ ''.'')
                        w]))
           | _ \<Rightarrow> Inl KeyError))"

definition handle_whitelist_toggle ::
  "conn \<Rightarrow> (string \<times> json) list \<Rightarrow> state \<Rightarrow> py_exc + (state \<times> action list)" where
  "handle_whitelist_toggle websocket data s =
     (case CLIENTS s websocket of
        None \<Rightarrow> Inl KeyError
      | Some info \<Rightarrow>
          (case map_of data ''enabled'' of
             Some (JBool enabled) \<Rightarrow>
               (let (w, status_text) =
                      (if enabled then (StarList, ''enabled (accepting from all in room)'')
                       else (SetOf [], ''disabled (accepting from no one)''))
                in Inr (set_whitelist websocket info w s,
                     [toggle_ack websocket
                       (''Wildcard whitelist has been '' @ status_text @ ''.'') w]))
           | _ \<Rightarrow> Inl KeyError))"

section \<open>The connection handler\<close>

text \<open>\<open>path.strip('/')\<close>: every leading and every trailing \<open>/\<close> goes.\<close>

definition strip_slash :: "string \<Rightarrow> string" where
  "strip_slash p =
     rev (dropWhile (\<lambda>c. c = CHR ''/'') (rev (dropWhile (\<lambda>c. c = CHR ''/'') p)))"

text \<open>
  \<open>main_handler\<close> up to its loop: the room name, then the registration. The boolean
  says whether the loop is entered.
\<close>

definition main_handler_open ::
  "conn \<Rightarrow> string \<Rightarrow> recv \<Rightarrow> state \<Rightarrow> py_exc + (bool \<times> state \<times> action list)" where
  "main_handler_open websocket path r s =
     (let room = strip_slash path in
      if room = [] then
        Inr (False, s,
          [Close websocket 1008
            ''Room name must be provided in the URL path (e.g., /my-room).''])
      else register_client websocket room r s)"

text \<open>One turn of the loop of \<open>main_handler\<close>, on one received frame.\<close>

definition handle_frame ::
  "conn \<Rightarrow> decoded \<Rightarrow> state \<Rightarrow> py_exc + (state \<times> action list)" where
  "handle_frame websocket frame s =
     (case frame of
        NotJson \<Rightarrow> Inr (s, [])
      | LoadsError e \<Rightarrow> Inl e
      | Json (JDict data) \<Rightarrow>
          if \<not> validate_schema data then Inr (s, [])
          else
            (case map_of data ''type'' of
               Some (JStr t) \<Rightarrow>
                 if t = ''message'' then
                   map_sum id (Pair s) (handle_direct_message websocket data s)
                 else if t = ''whitelist_add'' \<or> t = ''whitelist_remove'' then
                   handle_whitelist_command websocket data s
                 else if t = ''whitelist_toggle_wildcard'' then
                   handle_whitelist_toggle websocket data s
                 else Inr (s, [])
             | _ \<Rightarrow> Inl KeyError)
      | Json v \<Rightarrow> Inl AttributeError)"

text \<open>
  The loop with its \<open>finally\<close>: the frames of one connection in arrival order, until
  the transport ends or an exception leaves the loop; then \<open>unregister_client\<close>.
\<close>

fun main_loop ::
  "conn \<Rightarrow> decoded list \<Rightarrow> state \<Rightarrow> action list \<Rightarrow> py_exc option \<times> state \<times> action list" where
  "main_loop websocket [] s acts = (None, unregister_client websocket s, acts)"
| "main_loop websocket (frame # frames) s acts =
     (case handle_frame websocket frame s of
        Inl e \<Rightarrow> (Some e, unregister_client websocket s, acts)
      | Inr (s', a) \<Rightarrow> main_loop websocket frames s' (acts @ a))"

text \<open>
  The states the server reaches, with the tasks of the connections interleaved at their
  suspension points: a new connection runs \<open>main_handler\<close> up to the loop, a registered
  one handles a frame, and a connection that ends (or whose handler raises) is
  unregistered.
\<close>

inductive reachable :: "state \<Rightarrow> bool" where
  start: "reachable init_state"
| connect:
    "reachable s \<Longrightarrow> CLIENTS s websocket = None \<Longrightarrow>
     main_handler_open websocket path r s = Inr (b, s', acts) \<Longrightarrow> reachable s'"
| frame:
    "reachable s \<Longrightarrow> CLIENTS s websocket \<noteq> None \<Longrightarrow>
     handle_frame websocket f s = Inr (s', acts) \<Longrightarrow> reachable s'"
| disconnect:
    "reachable s \<Longrightarrow> reachable (unregister_client websocket s)"

section \<open>The properties, as the specification words them\<close>

fun is_str :: "json \<Rightarrow> bool" where
  "is_str (JStr s) = True"
| "is_str v = False"

fun is_bool :: "json \<Rightarrow> bool" where
  "is_bool (JBool b) = True"
| "is_bool v = False"

fun is_list_of_str :: "json \<Rightarrow> bool" where
  "is_list_of_str (JList xs) = list_all is_str xs"
| "is_list_of_str v = False"

definition has_field :: "(string \<times> json) list \<Rightarrow> string \<Rightarrow> (json \<Rightarrow> bool) \<Rightarrow> bool" where
  "has_field data f P = (case map_of data f of None \<Rightarrow> False | Some v \<Rightarrow> P v)"

text \<open>
  The schema table of the specification, with its semantic types: \<open>whitelist\<close> a list
  of strings, \<open>payload\<close> any value.
\<close>

definition spec_valid :: "(string \<times> json) list \<Rightarrow> bool" where
  "spec_valid data =
     (case map_of data ''type'' of
        Some (JStr t) \<Rightarrow>
          if t = ''register'' then
            has_field data ''user_id'' is_str \<and> has_field data ''whitelist'' is_list_of_str
          else if t = ''message'' then
            has_field data ''recipient_id'' is_str \<and> has_field data ''payload'' (\<lambda>v. True)
          else if t = ''whitelist_add'' then has_field data ''user_id'' is_str
          else if t = ''whitelist_remove'' then has_field data ''user_id'' is_str
          else if t = ''whitelist_toggle_wildcard'' then has_field data ''enabled'' is_bool
          else False
      | _ \<Rightarrow> False)"

text \<open>
  The room name as the specification words it: the trailing segment of the path, without
  its leading and trailing \<open>/\<close>.
\<close>

definition trailing_segment :: "string \<Rightarrow> string" where
  "trailing_segment p = rev (takeWhile (\<lambda>c. c \<noteq> CHR ''/'') (rev (strip_slash p)))"


text \<open>The invariant of the two registry views, as the specification states it.\<close>

definition registry_consistent :: "state \<Rightarrow> bool" where
  "registry_consistent s =
     (finite (dom (CLIENTS s)) \<and> finite (dom (USER_ID_MAP s)) \<and>
      (\<forall>c info. CLIENTS s c = Some info \<longrightarrow> USER_ID_MAP s (user_id info) = Some c) \<and>
      card (dom (CLIENTS s)) = card (dom (USER_ID_MAP s)))"

text \<open>The same, with the second view read backwards instead of counted.\<close>

definition views_match :: "state \<Rightarrow> bool" where
  "views_match s =
     (finite (dom (CLIENTS s)) \<and>
      (\<forall>c info. CLIENTS s c = Some info \<longrightarrow> USER_ID_MAP s (user_id info) = Some c) \<and>
      (\<forall>u c. USER_ID_MAP s u = Some c \<longrightarrow> (\<exists>info. CLIENTS s c = Some info \<and> user_id info = u)))"

text \<open>
  The scenario of the specification: A registers in room \<open>lobby\<close> with the wildcard,
  B in \<open>lobby\<close> with the whitelist \<open>["a"]\<close>, C in room \<open>other\<close> with the wildcard.
\<close>

definition register_msg :: "string \<Rightarrow> json list \<Rightarrow> (string \<times> json) list" where
  "register_msg uid wl =
     [(''type'', JStr ''register''), (''user_id'', JStr uid), (''whitelist'', JList wl)]"

definition client_a :: client_info where
  "client_a = \<lparr>user_id = ''a'', room_name = ''lobby'', whitelist = StarList\<rparr>"

definition client_b :: client_info where
  "client_b = \<lparr>user_id = ''b'', room_name = ''lobby'', whitelist = SetOf [JStr ''a'']\<rparr>"

definition client_c :: client_info where
  "client_c = \<lparr>user_id = ''c'', room_name = ''other'', whitelist = StarList\<rparr>"

definition state_a :: state where
  "state_a = \<lparr>CLIENTS = [10 \<mapsto> client_a], USER_ID_MAP = [''a'' \<mapsto> 10]\<rparr>"

definition state_ab :: state where
  "state_ab = \<lparr>CLIENTS = [10 \<mapsto> client_a, 11 \<mapsto> client_b],
               USER_ID_MAP = [''a'' \<mapsto> 10, ''b'' \<mapsto> 11]\<rparr>"

definition state_abc :: state where
  "state_abc = \<lparr>CLIENTS = [10 \<mapsto> client_a, 11 \<mapsto> client_b, 12 \<mapsto> client_c],
                USER_ID_MAP = [''a'' \<mapsto> 10, ''b'' \<mapsto> 11, ''c'' \<mapsto> 12]\<rparr>"

definition message_msg :: "string \<Rightarrow> json \<Rightarrow> (string \<times> json) list" where
  "message_msg rid payload =
     [(''type'', JStr ''message''), (''recipient_id'', JStr rid), (''payload'', payload)]"

definition remove_msg :: "string \<Rightarrow> (string \<times> json) list" where
  "remove_msg uid = [(''type'', JStr ''whitelist_remove''), (''user_id'', JStr uid)]"

definition add_msg :: "string \<Rightarrow> (string \<times> json) list" where
  "add_msg uid = [(''type'', JStr ''whitelist_add''), (''user_id'', JStr uid)]"

definition toggle_msg :: "bool \<Rightarrow> (string \<times> json) list" where
  "toggle_msg enabled = [(''type'', JStr ''whitelist_toggle_wildcard''), (''enabled'', JBool enabled)]"

text \<open>A after \<open>whitelist_remove\<close> on the wildcard.\<close>

definition state_a_removed :: state where
  "state_a_removed =
     \<lparr>CLIENTS = [10 \<mapsto> client_a\<lparr>whitelist := EmptyDict\<rparr>], USER_ID_MAP = [''a'' \<mapsto> 10]\<rparr>"

section \<open>The schema validator\<close>

lemma isinstance_str: "isinstance v PyStr = (\<exists>s. v = JStr s)"
  by (cases v) auto

lemma isinstance_list: "isinstance v PyList = (\<exists>s. v = JList s)"
  by (cases v) auto

lemma isinstance_bool: "isinstance v PyBool = (\<exists>s. v = JBool s)"
  by (cases v) auto

lemma check_one:
  "check_fields data [(f, t)] =
     (case map_of data f of None \<Rightarrow> False | Some v \<Rightarrow> isinstance v t)"
  by (cases t) (auto split: option.splits)

lemma check_two:
  "check_fields data [(f, t), (g, u)] =
     (check_fields data [(f, t)] \<and> check_fields data [(g, u)])"
  by (auto split: option.splits)

lemma has_str:
  "(case m of None \<Rightarrow> False | Some v \<Rightarrow> isinstance v PyStr) = (\<exists>u. m = Some (JStr u))"
  by (auto simp: isinstance_str split: option.splits)

lemma has_list:
  "(case m of None \<Rightarrow> False | Some v \<Rightarrow> isinstance v PyList) = (\<exists>u. m = Some (JList u))"
  by (auto simp: isinstance_list split: option.splits)

lemma has_bool:
  "(case m of None \<Rightarrow> False | Some v \<Rightarrow> isinstance v PyBool) = (\<exists>u. m = Some (JBool u))"
  by (auto simp: isinstance_bool split: option.splits)

lemma has_any:
  "(case m of None \<Rightarrow> False | Some v \<Rightarrow> isinstance v PyObject) = (\<exists>u. m = Some u)"
  by (auto split: option.splits)

lemma validate_typed:
  "validate_schema data =
     (\<exists>t. map_of data ''type'' = Some (JStr t) \<and>
        (case map_of schema t of None \<Rightarrow> False | Some req \<Rightarrow> check_fields data req))"
  by (auto simp: validate_schema_def split: option.splits json.splits)

lemma table_lookup:
  assumes "distinct [r, m, a, d, g]"
  shows "(case map_of [(r, R), (m, M), (a, A), (d, D), (g, G)] t of
            None \<Rightarrow> False | Some req \<Rightarrow> P req) =
         (t = r \<and> P R \<or> t = m \<and> P M \<or> t = a \<and> P A \<or> t = d \<and> P D \<or> t = g \<and> P G)"
  using assms by auto

lemma schema_names_distinct:
  "distinct [''register'', ''message'', ''whitelist_add'', ''whitelist_remove'',
     ''whitelist_toggle_wildcard'']"
  by simp

lemma validate_schema_cases:
  "validate_schema data \<longleftrightarrow>
     (\<exists>t. map_of data ''type'' = Some (JStr t) \<and>
        (t = ''register'' \<and> (\<exists>u. map_of data ''user_id'' = Some (JStr u)) \<and>
            (\<exists>xs. map_of data ''whitelist'' = Some (JList xs))
         \<or> t = ''message'' \<and> (\<exists>u. map_of data ''recipient_id'' = Some (JStr u)) \<and>
            (\<exists>p. map_of data ''payload'' = Some p)
         \<or> t = ''whitelist_add'' \<and> (\<exists>u. map_of data ''user_id'' = Some (JStr u))
         \<or> t = ''whitelist_remove'' \<and> (\<exists>u. map_of data ''user_id'' = Some (JStr u))
         \<or> t = ''whitelist_toggle_wildcard'' \<and>
            (\<exists>b. map_of data ''enabled'' = Some (JBool b))))"
  unfolding validate_typed schema_def table_lookup [OF schema_names_distinct]
    check_two check_one has_str has_list has_bool has_any
  by (rule refl)

text \<open>
  C3 (as the code has it). \<open>validate_schema\<close> is a function of the decoded message
  alone, and it accepts a message exactly when \<open>type\<close> is a string naming one of the
  five types and every field of that type's row is present with its declared class:
  \<open>user_id\<close> and \<open>recipient_id\<close> a string, \<open>enabled\<close> a boolean, \<open>payload\<close>
  any value, and \<open>whitelist\<close> a list, whatever its elements are.
\<close>

theorem validate_schema_iff:
  "validate_schema data \<longleftrightarrow>
     (\<exists>t. map_of data ''type'' = Some (JStr t) \<and>
        (t = ''register'' \<and> (\<exists>u. map_of data ''user_id'' = Some (JStr u)) \<and>
            (\<exists>xs. map_of data ''whitelist'' = Some (JList xs))
         \<or> t = ''message'' \<and> (\<exists>u. map_of data ''recipient_id'' = Some (JStr u)) \<and>
            (\<exists>p. map_of data ''payload'' = Some p)
         \<or> t = ''whitelist_add'' \<and> (\<exists>u. map_of data ''user_id'' = Some (JStr u))
         \<or> t = ''whitelist_remove'' \<and> (\<exists>u. map_of data ''user_id'' = Some (JStr u))
         \<or> t = ''whitelist_toggle_wildcard'' \<and>
            (\<exists>b. map_of data ''enabled'' = Some (JBool b))))"
  by (rule validate_schema_cases)

theorem validate_schema_iff_witness:
  "validate_schema [(''type'', JStr ''whitelist_toggle_wildcard''), (''enabled'', JBool False)] \<and>
   \<not> validate_schema [(''type'', JStr ''whitelist_toggle_wildcard''), (''enabled'', JInt 0)] \<and>
   \<not> validate_schema [(''type'', JStr ''message''), (''recipient_id'', JStr ''b'')] \<and>
   \<not> validate_schema [(''type'', JStr ''ping'')]"
  by (auto simp: validate_schema_iff)

text \<open>
  C3 as the specification words it fails: a \<open>register\<close> message whose whitelist holds
  a number passes the validator, though its whitelist is no list of strings.
\<close>

theorem validate_schema_list_of_string_counterexample:
  "validate_schema
     [(''type'', JStr ''register''), (''user_id'', JStr ''a''), (''whitelist'', JList [JInt 1])] \<and>
   \<not> spec_valid
     [(''type'', JStr ''register''), (''user_id'', JStr ''a''), (''whitelist'', JList [JInt 1])]"
  by (simp add: validate_schema_def schema_def spec_valid_def has_field_def)

section \<open>The two views of the registry\<close>

lemma register_client_cases:
  assumes "register_client ws room r s = Inr (b, s', acts)"
  shows "(\<not> b \<and> s' = s) \<or>
         (b \<and> acts = [] \<and> (\<exists>uid w. uid \<noteq> [] \<and> USER_ID_MAP s uid = None \<and>
            s' = s\<lparr>CLIENTS := (CLIENTS s)(ws \<mapsto>
                      \<lparr>user_id = uid, room_name = room, whitelist = w\<rparr>),
                    USER_ID_MAP := (USER_ID_MAP s)(uid \<mapsto> ws)\<rparr>))"
  using assms unfolding register_client_def
  by (auto split: recv.splits decoded.splits json.splits option.splits if_splits sum.splits)

lemma views_match_init: "views_match init_state"
  by (simp add: views_match_def init_state_def)

lemma views_match_insert:
  assumes vm: "views_match s" and c: "CLIENTS s ws = None" and u: "USER_ID_MAP s uid = None"
  shows "views_match (s\<lparr>CLIENTS := (CLIENTS s)(ws \<mapsto>
            \<lparr>user_id = uid, room_name = room, whitelist = w\<rparr>),
          USER_ID_MAP := (USER_ID_MAP s)(uid \<mapsto> ws)\<rparr>)"
proof -
  from vm have fin: "finite (dom (CLIENTS s))"
    and fwd: "\<And>c info. CLIENTS s c = Some info \<Longrightarrow> USER_ID_MAP s (user_id info) = Some c"
    and bwd: "\<And>u c. USER_ID_MAP s u = Some c \<Longrightarrow> \<exists>info. CLIENTS s c = Some info \<and> user_id info = u"
    unfolding views_match_def by blast+
  have a: "user_id info \<noteq> uid" if "CLIENTS s c = Some info" for c info
    using fwd [OF that] u by auto
  have b: "c \<noteq> ws" if "USER_ID_MAP s v = Some c" for v c
    using bwd [OF that] c by auto
  show ?thesis
    unfolding views_match_def using fin fwd bwd a b by auto
qed

lemma register_views_match:
  assumes "views_match s" "CLIENTS s ws = None"
    "register_client ws room r s = Inr (b, s', acts)"
  shows "views_match s'"
  using register_client_cases [OF assms(3)] assms(1,2) views_match_insert
  by blast

lemma unregister_views_match:
  assumes vm: "views_match s"
  shows "views_match (unregister_client ws s)"
proof (cases "CLIENTS s ws")
  case None
  then show ?thesis using vm by (simp add: unregister_client_def)
next
  case (Some x)
  from vm have fin: "finite (dom (CLIENTS s))"
    and fwd: "\<And>c info. CLIENTS s c = Some info \<Longrightarrow> USER_ID_MAP s (user_id info) = Some c"
    and bwd: "\<And>u c. USER_ID_MAP s u = Some c \<Longrightarrow> \<exists>info. CLIENTS s c = Some info \<and> user_id info = u"
    unfolding views_match_def by blast+
  have a: "user_id info \<noteq> user_id x" if "CLIENTS s c = Some info" "c \<noteq> ws" for c info
    using fwd [OF that(1)] fwd [OF Some] that(2) by auto
  have b: "c \<noteq> ws" if "USER_ID_MAP s v = Some c" "v \<noteq> user_id x" for v c
    using bwd [OF that(1)] Some that(2) by auto
  show ?thesis
    unfolding views_match_def unregister_client_def using Some fin fwd bwd a b
    by auto
qed

lemma handle_frame_cases:
  assumes "handle_frame ws f s = Inr (s', acts)"
  shows "s' = s \<or> (\<exists>info w. CLIENTS s ws = Some info \<and> s' = set_whitelist ws info w s)"
proof (cases f)
  case NotJson
  with assms show ?thesis by (simp add: handle_frame_def)
next
  case (LoadsError e)
  with assms show ?thesis by (simp add: handle_frame_def)
next
  case (Json v)
  show ?thesis
  proof (cases v)
    case (JDict data)
    show ?thesis
    proof (cases "validate_schema data")
      case False
      with assms Json JDict show ?thesis by (simp add: handle_frame_def)
    next
      case True
      then obtain t where t: "map_of data ''type'' = Some (JStr t)"
        using validate_typed by blast
      have c: "handle_frame ws f s =
          (if t = ''message'' then map_sum id (Pair s) (handle_direct_message ws data s)
           else if t = ''whitelist_add'' \<or> t = ''whitelist_remove'' then
             handle_whitelist_command ws data s
           else if t = ''whitelist_toggle_wildcard'' then handle_whitelist_toggle ws data s
           else Inr (s, []))"
        using Json JDict True t by (simp add: handle_frame_def)
      have m: "map_sum id (Pair s) (handle_direct_message ws data s) = Inr (s', acts) \<Longrightarrow> s' = s"
        by (cases "handle_direct_message ws data s") auto
      have w: "handle_whitelist_command ws data s = Inr (s', acts) \<Longrightarrow>
          \<exists>info w. CLIENTS s ws = Some info \<and> s' = set_whitelist ws info w s"
        unfolding handle_whitelist_command_def
        by (auto split: option.splits json.splits sum.splits prod.splits)
      have g: "handle_whitelist_toggle ws data s = Inr (s', acts) \<Longrightarrow>
          \<exists>info w. CLIENTS s ws = Some info \<and> s' = set_whitelist ws info w s"
        unfolding handle_whitelist_toggle_def
        by (auto split: option.splits json.splits if_splits)
      from assms c m w g show ?thesis
        by (auto split: if_splits)
    qed
  qed (use assms Json in \<open>simp_all add: handle_frame_def\<close>)
qed

lemma views_match_set_whitelist:
  assumes "views_match s" "CLIENTS s ws = Some info"
  shows "views_match (set_whitelist ws info w s)"
proof -
  from assms(1) have fin: "finite (dom (CLIENTS s))"
    and fwd: "\<And>c info. CLIENTS s c = Some info \<Longrightarrow> USER_ID_MAP s (user_id info) = Some c"
    and bwd: "\<And>u c. USER_ID_MAP s u = Some c \<Longrightarrow> \<exists>info. CLIENTS s c = Some info \<and> user_id info = u"
    unfolding views_match_def by blast+
  have b: "user_id info = v" if "USER_ID_MAP s v = Some ws" for v
    using bwd [OF that] assms(2) by auto
  show ?thesis
    unfolding views_match_def set_whitelist_def using fin fwd bwd b assms(2)
    by auto
qed

lemma frame_views_match:
  assumes "views_match s" "handle_frame ws f s = Inr (s', acts)"
  shows "views_match s'"
  using handle_frame_cases [OF assms(2)] assms(1) views_match_set_whitelist by blast

lemma open_views_match:
  assumes "views_match s" "CLIENTS s ws = None"
    "main_handler_open ws path r s = Inr (b, s', acts)"
  shows "views_match s'"
  using assms register_views_match
  by (auto simp: main_handler_open_def Let_def split: if_splits)

lemma reachable_views_match: "reachable s \<Longrightarrow> views_match s"
proof (induction rule: reachable.induct)
  case start
  show ?case by (rule views_match_init)
next
  case (connect s websocket path r b s' acts)
  then show ?case using open_views_match by blast
next
  case (frame s websocket f s' acts)
  then show ?case using frame_views_match by blast
next
  case (disconnect s websocket)
  then show ?case by (simp add: unregister_views_match)
qed

lemma views_match_inj:
  assumes "views_match s" "CLIENTS s c1 = Some i1" "CLIENTS s c2 = Some i2"
    "user_id i1 = user_id i2"
  shows "c1 = c2"
  using assms unfolding views_match_def by (metis option.inject)

lemma views_match_consistent:
  assumes vm: "views_match s"
  shows "registry_consistent s"
proof -
  from vm have fin: "finite (dom (CLIENTS s))"
    and fwd: "\<And>c info. CLIENTS s c = Some info \<Longrightarrow> USER_ID_MAP s (user_id info) = Some c"
    and bwd: "\<And>u c. USER_ID_MAP s u = Some c \<Longrightarrow> \<exists>info. CLIENTS s c = Some info \<and> user_id info = u"
    unfolding views_match_def by blast+
  let ?f = "\<lambda>c. user_id (the (CLIENTS s c))"
  have img: "?f ` dom (CLIENTS s) = dom (USER_ID_MAP s)"
  proof (intro set_eqI iffI)
    fix u assume "u \<in> ?f ` dom (CLIENTS s)"
    then obtain c info where "CLIENTS s c = Some info" "u = user_id info" by auto
    then show "u \<in> dom (USER_ID_MAP s)" using fwd by auto
  next
    fix u assume "u \<in> dom (USER_ID_MAP s)"
    then obtain c where c: "USER_ID_MAP s u = Some c" by auto
    from bwd [OF c] obtain info where "CLIENTS s c = Some info" "user_id info = u" by auto
    then have "c \<in> dom (CLIENTS s)" "?f c = u" by auto
    then show "u \<in> ?f ` dom (CLIENTS s)" by blast
  qed
  have inj: "inj_on ?f (dom (CLIENTS s))"
  proof (rule inj_onI)
    fix x y assume "x \<in> dom (CLIENTS s)" "y \<in> dom (CLIENTS s)" "?f x = ?f y"
    then obtain i j where "CLIENTS s x = Some i" "CLIENTS s y = Some j" "user_id i = user_id j"
      by auto
    then show "x = y" using views_match_inj [OF vm] by blast
  qed
  have "finite (dom (USER_ID_MAP s))" using img fin by (metis finite_imageI)
  moreover have "card (dom (CLIENTS s)) = card (dom (USER_ID_MAP s))"
    using card_image [OF inj] img by simp
  ultimately show ?thesis
    unfolding registry_consistent_def using fin fwd by blast
qed

lemma consistent_views_match:
  assumes rc: "registry_consistent s"
  shows "views_match s"
proof -
  from rc have fin: "finite (dom (CLIENTS s))" and finu: "finite (dom (USER_ID_MAP s))"
    and fwd: "\<And>c info. CLIENTS s c = Some info \<Longrightarrow> USER_ID_MAP s (user_id info) = Some c"
    and crd: "card (dom (CLIENTS s)) = card (dom (USER_ID_MAP s))"
    unfolding registry_consistent_def by blast+
  let ?f = "\<lambda>c. user_id (the (CLIENTS s c))"
  have sub: "?f ` dom (CLIENTS s) \<subseteq> dom (USER_ID_MAP s)"
    using fwd by auto
  have inj: "inj_on ?f (dom (CLIENTS s))"
  proof (rule inj_onI)
    fix x y assume "x \<in> dom (CLIENTS s)" "y \<in> dom (CLIENTS s)" "?f x = ?f y"
    then obtain i j where ij: "CLIENTS s x = Some i" "CLIENTS s y = Some j" "user_id i = user_id j"
      by auto
    from fwd [OF ij(1)] fwd [OF ij(2)] ij(3) show "x = y" by simp
  qed
  have "card (?f ` dom (CLIENTS s)) = card (dom (USER_ID_MAP s))"
    using card_image [OF inj] crd by simp
  with sub finu have img: "?f ` dom (CLIENTS s) = dom (USER_ID_MAP s)"
    by (simp add: card_subset_eq)
  have bwd: "\<exists>info. CLIENTS s c = Some info \<and> user_id info = u" if u: "USER_ID_MAP s u = Some c" for u c
  proof -
    from u have "u \<in> ?f ` dom (CLIENTS s)" using img by auto
    then obtain c' info where ci: "CLIENTS s c' = Some info" "u = user_id info" by auto
    from fwd [OF ci(1)] ci(2) u have "c' = c" by simp
    with ci show ?thesis by auto
  qed
  show ?thesis unfolding views_match_def using fin fwd bwd by blast
qed

section \<open>The scenario, run\<close>

lemma validate_register_msg: "validate_schema (register_msg uid wl)"
  by (simp add: validate_schema_def schema_def register_msg_def)

lemma register_msg_fields:
  "map_of (register_msg uid wl) ''type'' = Some (JStr ''register'')"
  "map_of (register_msg uid wl) ''user_id'' = Some (JStr uid)"
  "map_of (register_msg uid wl) ''whitelist'' = Some (JList wl)"
  by (simp_all add: register_msg_def)

lemma register_client_msg:
  "register_client ws room (Message (Json (JDict (register_msg uid wl)))) s =
     (if uid = [] \<or> USER_ID_MAP s uid \<noteq> None then
        Inr (False, s, [Close ws 1008 ''User ID is invalid or already in use.''])
      else
        (case (if wl = [JStr ''*''] then Inr StarList else map_sum id SetOf (py_set wl)) of
           Inl e \<Rightarrow> Inl e
         | Inr w \<Rightarrow>
             Inr (True,
               s\<lparr>CLIENTS := (CLIENTS s)(ws \<mapsto> \<lparr>user_id = uid, room_name = room, whitelist = w\<rparr>),
                 USER_ID_MAP := (USER_ID_MAP s)(uid \<mapsto> ws)\<rparr>,
               [])))"
  by (simp add: register_client_def validate_register_msg register_msg_fields)

lemma strip_lobby: "strip_slash ''/lobby'' = ''lobby''"
  by (simp add: strip_slash_def)

lemma strip_other: "strip_slash ''/other'' = ''other''"
  by (simp add: strip_slash_def)

lemma open_a:
  "main_handler_open 10 ''/lobby'' (Message (Json (JDict (register_msg ''a'' [JStr ''*''])))) init_state =
     Inr (True, state_a, [])"
  by (simp add: main_handler_open_def strip_lobby register_client_msg init_state_def state_a_def
      client_a_def)

lemma open_b:
  "main_handler_open 11 ''/lobby'' (Message (Json (JDict (register_msg ''b'' [JStr ''a''])))) state_a =
     Inr (True, state_ab, [])"
  by (simp add: main_handler_open_def strip_lobby register_client_msg state_ab_def state_a_def
      client_b_def py_set_def set_add_def)

lemma open_c:
  "main_handler_open 12 ''/other'' (Message (Json (JDict (register_msg ''c'' [JStr ''*''])))) state_ab =
     Inr (True, state_abc, [])"
  by (simp add: main_handler_open_def strip_other register_client_msg state_ab_def state_abc_def
      client_c_def)

lemma reachable_a: "reachable state_a"
  by (rule reachable.connect [OF reachable.start _ open_a]) (simp add: init_state_def)

lemma reachable_ab: "reachable state_ab"
  by (rule reachable.connect [OF reachable_a _ open_b]) (simp add: state_a_def)

lemma reachable_abc: "reachable state_abc"
  by (rule reachable.connect [OF reachable_ab _ open_c]) (simp add: state_ab_def)

section \<open>Routing, aborted registration and ignored frames\<close>

lemma py_eq_str: "py_eq y (JStr u) = (y = JStr u)"
  by (cases y) auto

lemma is_whitelisted_iff:
  "is_whitelisted u w \<longleftrightarrow> (w = StarList \<or> (\<exists>xs. w = SetOf xs \<and> JStr u \<in> set xs))"
  by (cases w) (auto simp: is_whitelisted_def py_eq_str list_ex_iff)

lemma handle_frame_valid:
  assumes "validate_schema data" "map_of data ''type'' = Some (JStr t)"
  shows "handle_frame ws (Json (JDict data)) s =
          (if t = ''message'' then map_sum id (Pair s) (handle_direct_message ws data s)
           else if t = ''whitelist_add'' \<or> t = ''whitelist_remove'' then
             handle_whitelist_command ws data s
           else if t = ''whitelist_toggle_wildcard'' then handle_whitelist_toggle ws data s
           else Inr (s, []))"
  using assms by (simp add: handle_frame_def)

text \<open>
  C10. A frame that passes the schema validation and whose type is \<open>register\<close> has
  no entry in \<open>handler_map\<close>: the turn of the loop sends nothing and leaves the registry,
  and so every session, as it was.
\<close>

theorem register_frame_ignored_when_active:
  assumes "validate_schema data" and "map_of data ''type'' = Some (JStr ''register'')"
  shows "handle_frame ws (Json (JDict data)) s = Inr (s, [])"
  by (simp add: handle_frame_valid [OF assms])

lemma register_client_abort:
  assumes "r = TimeoutError \<or> r = ConnectionClosed \<or> r = Message NotJson"
  shows "register_client ws room r s = Inr (False, s, [])"
  using assms by (auto simp: register_client_def)

lemma views_match_fresh:
  assumes "views_match s" "CLIENTS s ws = None"
  shows "ws \<notin> ran (USER_ID_MAP s)"
proof
  assume "ws \<in> ran (USER_ID_MAP s)"
  then obtain u where "USER_ID_MAP s u = Some ws" by (auto simp: ran_def)
  with assms(1) obtain info where "CLIENTS s ws = Some info"
    unfolding views_match_def by blast
  with assms(2) show False by simp
qed

text \<open>
  The outcomes \<open>register_client\<close> catches: it returns \<open>False\<close>, sends and closes
  nothing and leaves the registry as it was; the connection, being new, is in neither
  view.
\<close>

lemma registration_caught_abort:
  assumes "r = TimeoutError \<or> r = ConnectionClosed \<or> r = Message NotJson"
    and "reachable s" and "CLIENTS s ws = None"
  shows "\<exists>s'. register_client ws room r s = Inr (False, s', []) \<and> s' = s \<and>
           ws \<notin> dom (CLIENTS s') \<and> ws \<notin> ran (USER_ID_MAP s')"
  using register_client_abort [OF assms(1)] views_match_fresh [OF reachable_views_match]
    assms(2,3) by auto

lemma direct_message_absent:
  assumes "map_of data ''recipient_id'' = Some (JStr rid)" "CLIENTS s ws = Some sender"
    "USER_ID_MAP s rid = None"
  shows "handle_direct_message ws data s = Inr [Send ws (generic_failure_msg rid)]"
  using assms by (simp add: handle_direct_message_def)

lemma direct_message_present:
  assumes "map_of data ''recipient_id'' = Some (JStr rid)" "CLIENTS s ws = Some sender"
    "USER_ID_MAP s rid = Some rws" "CLIENTS s rws = Some rinfo"
    "map_of data ''payload'' = Some payload"
  shows "handle_direct_message ws data s =
     Inr (if room_name rinfo = room_name sender \<and>
             is_whitelisted (user_id sender) (whitelist rinfo)
          then [Send rws (JDict [(''type'', JStr ''incoming_message''),
                                 (''sender_id'', JStr (user_id sender)),
                                 (''payload'', payload)])]
          else [Send ws (generic_failure_msg rid)])"
  using assms by (simp add: handle_direct_message_def)

lemma direct_message_refused:
  assumes "map_of data ''recipient_id'' = Some (JStr rid)" "CLIENTS s ws = Some sender"
    "USER_ID_MAP s rid = Some rws" "CLIENTS s rws = Some rinfo"
    "\<not> (room_name rinfo = room_name sender \<and>
        is_whitelisted (user_id sender) (whitelist rinfo))"
  shows "handle_direct_message ws data s = Inr [Send ws (generic_failure_msg rid)]"
  using assms by (auto simp add: handle_direct_message_def)

text \<open>
  C6. For one sender and one \<open>recipient_id\<close>, the answer when the recipient is absent
  from \<open>USER_ID_MAP\<close> and the answer when the recipient is registered but in another
  room or has not whitelisted the sender are the same single message to the sender.
\<close>

theorem routing_failures_indistinguishable:
  assumes "map_of data ''recipient_id'' = Some (JStr rid)"
    and "CLIENTS s1 ws = Some sender1" and "USER_ID_MAP s1 rid = None"
    and "CLIENTS s2 ws = Some sender2" and "USER_ID_MAP s2 rid = Some rws"
    and "CLIENTS s2 rws = Some rinfo"
    and "room_name rinfo \<noteq> room_name sender2 \<or>
         \<not> (whitelist rinfo = StarList \<or>
            (\<exists>xs. whitelist rinfo = SetOf xs \<and> JStr (user_id sender2) \<in> set xs))"
  shows "handle_direct_message ws data s1 = handle_direct_message ws data s2 \<and>
         handle_direct_message ws data s2 = Inr [Send ws (generic_failure_msg rid)]"
proof -
  have "\<not> (room_name rinfo = room_name sender2 \<and>
        is_whitelisted (user_id sender2) (whitelist rinfo))"
    using assms(7) by (simp only: is_whitelisted_iff) blast
  from direct_message_refused [OF assms(1,4,5,6) this] direct_message_absent [OF assms(1,2,3)]
  show ?thesis by simp
qed

text \<open>
  C5. For a registered sender and a valid \<open>message\<close> whose recipient is in
  \<open>USER_ID_MAP\<close>: the recipient is sent \<open>incoming_message\<close> with the sender's
  \<open>user_id\<close> and the payload as received exactly when the two rooms are equal and the
  recipient's whitelist is the wildcard or a set holding the sender's \<open>user_id\<close>;
  otherwise the sender is sent the generic failure. The registry is not changed.
\<close>

theorem message_forwarded_iff_deliverable:
  assumes "reachable s" and "CLIENTS s ws = Some sender"
    and "validate_schema data" and "map_of data ''type'' = Some (JStr ''message'')"
    and "map_of data ''recipient_id'' = Some (JStr rid)"
    and "map_of data ''payload'' = Some payload"
    and "USER_ID_MAP s rid = Some rws"
  shows "\<exists>rinfo. CLIENTS s rws = Some rinfo \<and>
     handle_frame ws (Json (JDict data)) s =
       Inr (s,
         if room_name rinfo = room_name sender \<and>
            (whitelist rinfo = StarList \<or>
             (\<exists>xs. whitelist rinfo = SetOf xs \<and> JStr (user_id sender) \<in> set xs))
         then [Send rws (JDict [(''type'', JStr ''incoming_message''),
                                (''sender_id'', JStr (user_id sender)),
                                (''payload'', payload)])]
         else [Send ws (generic_failure_msg rid)])"
proof -
  from reachable_views_match [OF assms(1)] assms(7)
  obtain rinfo where r: "CLIENTS s rws = Some rinfo"
    unfolding views_match_def by blast
  have "handle_frame ws (Json (JDict data)) s =
      map_sum id (Pair s) (handle_direct_message ws data s)"
    by (simp add: handle_frame_valid [OF assms(3,4)])
  then show ?thesis
    using r direct_message_present [OF assms(5,2,7) r assms(6)]
    by (simp add: is_whitelisted_iff)
qed

lemma validate_message_msg: "validate_schema (message_msg rid payload)"
  by (simp add: validate_schema_def schema_def message_msg_def)

lemma message_msg_fields:
  "map_of (message_msg rid payload) ''type'' = Some (JStr ''message'')"
  "map_of (message_msg rid payload) ''recipient_id'' = Some (JStr rid)"
  "map_of (message_msg rid payload) ''payload'' = Some payload"
  by (simp_all add: message_msg_def)

lemma state_abc_lookup:
  "CLIENTS state_abc 10 = Some client_a" "CLIENTS state_abc 11 = Some client_b"
  "CLIENTS state_abc 12 = Some client_c" "USER_ID_MAP state_abc ''a'' = Some 10"
  "USER_ID_MAP state_abc ''b'' = Some 11" "USER_ID_MAP state_abc ''c'' = Some 12"
  by (simp_all add: state_abc_def)

lemma state_ab_lookup:
  "CLIENTS state_ab 10 = Some client_a" "CLIENTS state_ab 11 = Some client_b"
  "CLIENTS state_ab 12 = None" "USER_ID_MAP state_ab ''a'' = Some 10"
  "USER_ID_MAP state_ab ''b'' = Some 11" "USER_ID_MAP state_ab ''c'' = None"
  by (simp_all add: state_ab_def)

theorem register_frame_ignored_when_active_witness:
  "validate_schema (register_msg ''z'' []) \<and>
   map_of (register_msg ''z'' []) ''type'' = Some (JStr ''register'') \<and>
   handle_frame 10 (Json (JDict (register_msg ''z'' []))) state_ab = Inr (state_ab, [])"
  using register_frame_ignored_when_active
    [OF validate_register_msg register_msg_fields(1), of 10 "''z''" "[]" state_ab]
    validate_register_msg register_msg_fields(1)
  by simp

text \<open>
  C9, on the code. A first message that \<open>json.loads\<close> cannot decode is caught only
  when the failure is \<open>JSONDecodeError\<close>. A text of a thousand \<open>[\<close> fails with
  \<open>RecursionError\<close> and a binary frame that is not UTF-8 with
  \<open>UnicodeDecodeError\<close>; line 109 names neither, so \<open>register_client\<close> does not
  return \<open>False\<close>, as its docstring says it does whenever registration does not
  succeed: the exception leaves it and \<open>main_handler\<close>. The timeout, the closed
  transport and \<open>JSONDecodeError\<close> do return \<open>False\<close> with nothing sent.
\<close>

theorem registration_undecodable_raises:
  "register_client 12 ''lobby'' (Message (LoadsError RecursionError)) state_ab =
     Inl RecursionError \<and>
   register_client 12 ''lobby'' (Message (LoadsError UnicodeDecodeError)) state_ab =
     Inl UnicodeDecodeError \<and>
   main_handler_open 12 ''/lobby'' (Message (LoadsError RecursionError)) state_ab =
     Inl RecursionError \<and>
   register_client 12 ''lobby'' (Message NotJson) state_ab = Inr (False, state_ab, []) \<and>
   register_client 12 ''lobby'' TimeoutError state_ab = Inr (False, state_ab, []) \<and>
   register_client 12 ''lobby'' ConnectionClosed state_ab = Inr (False, state_ab, [])"
  by (simp add: register_client_def main_handler_open_def strip_lobby)

theorem routing_failures_indistinguishable_witness:
  "CLIENTS state_ab 11 = Some client_b \<and> USER_ID_MAP state_ab ''c'' = None \<and>
   CLIENTS state_abc 11 = Some client_b \<and> USER_ID_MAP state_abc ''c'' = Some 12 \<and>
   CLIENTS state_abc 12 = Some client_c \<and> room_name client_c \<noteq> room_name client_b \<and>
   handle_direct_message 11 (message_msg ''c'' JNull) state_ab =
     handle_direct_message 11 (message_msg ''c'' JNull) state_abc \<and>
   handle_direct_message 11 (message_msg ''c'' JNull) state_abc =
     Inr [Send 11 (generic_failure_msg ''c'')]"
proof -
  have r: "room_name client_c \<noteq> room_name client_b"
    by (simp add: client_c_def client_b_def)
  from routing_failures_indistinguishable
    [OF message_msg_fields(2) state_ab_lookup(2) state_ab_lookup(6) state_abc_lookup(2)
      state_abc_lookup(6) state_abc_lookup(3) disjI1 [OF r]]
  show ?thesis using r by (simp add: state_ab_lookup state_abc_lookup)
qed

theorem message_forwarded_iff_deliverable_witness:
  "reachable state_abc \<and> CLIENTS state_abc 11 = Some client_b \<and>
   validate_schema (message_msg ''a'' (JDict [(''x'', JInt 1)])) \<and>
   USER_ID_MAP state_abc ''a'' = Some 10 \<and>
   handle_frame 11 (Json (JDict (message_msg ''a'' (JDict [(''x'', JInt 1)])))) state_abc =
     Inr (state_abc,
       [Send 10 (JDict [(''type'', JStr ''incoming_message''), (''sender_id'', JStr ''b''),
                       (''payload'', JDict [(''x'', JInt 1)])])]) \<and>
   handle_frame 11 (Json (JDict (message_msg ''c'' (JDict [(''x'', JInt 1)])))) state_abc =
     Inr (state_abc, [Send 11 (generic_failure_msg ''c'')])"
  using message_forwarded_iff_deliverable
    [OF reachable_abc state_abc_lookup(2) validate_message_msg message_msg_fields
      state_abc_lookup(4), of "JDict [(''x'', JInt 1)]"]
    message_forwarded_iff_deliverable
    [OF reachable_abc state_abc_lookup(2) validate_message_msg message_msg_fields
      state_abc_lookup(6), of "JDict [(''x'', JInt 1)]"]
    reachable_abc validate_message_msg
  by (simp add: state_abc_lookup client_a_def client_b_def client_c_def)

section \<open>Registry consistency and unique identities\<close>

lemma register_consistent:
  assumes "registry_consistent s" "CLIENTS s ws = None"
    "register_client ws room r s = Inr (b, s', acts)"
  shows "registry_consistent s'"
  using assms consistent_views_match register_views_match views_match_consistent by blast

lemma unregister_consistent:
  assumes "registry_consistent s"
  shows "registry_consistent (unregister_client ws s)"
  using assms consistent_views_match unregister_views_match views_match_consistent by blast

lemma register_client_both_views:
  assumes "register_client ws room r s = Inr (b, s', acts)"
  shows "if b then (\<exists>info. CLIENTS s' = (CLIENTS s)(ws \<mapsto> info) \<and>
                       USER_ID_MAP s' = (USER_ID_MAP s)(user_id info \<mapsto> ws))
         else s' = s"
  using register_client_cases [OF assms] by auto

lemma unregister_both_views:
  assumes "CLIENTS s ws = Some info"
  shows "CLIENTS (unregister_client ws s) = (CLIENTS s)(ws := None) \<and>
         USER_ID_MAP (unregister_client ws s) = (USER_ID_MAP s)(user_id info := None)"
  using assms by (simp add: unregister_client_def)

text \<open>
  C7. The two views are consistent at the start and stay so across every insert and
  every remove: a registration on a new connection that succeeds adds the session under
  the connection and the connection under the session's \<open>user_id\<close>, one that fails
  changes nothing, and \<open>unregister_client\<close> removes both entries of a registered
  connection and does nothing for any other. Consistent means: \<open>USER_ID_MAP\<close> maps
  the \<open>user_id\<close> of every session back to its connection, and the two maps have the
  same finite number of keys.
\<close>

theorem registry_views_stay_consistent:
  "registry_consistent init_state \<and>
   (registry_consistent s \<and> CLIENTS s ws = None \<and>
    register_client ws room r s = Inr (b, s', acts) \<longrightarrow>
      registry_consistent s' \<and>
      (if b then (\<exists>info. CLIENTS s' = (CLIENTS s)(ws \<mapsto> info) \<and>
                    USER_ID_MAP s' = (USER_ID_MAP s)(user_id info \<mapsto> ws))
       else s' = s)) \<and>
   (registry_consistent s \<and> CLIENTS s ws = Some info \<longrightarrow>
      registry_consistent (unregister_client ws s) \<and>
      CLIENTS (unregister_client ws s) = (CLIENTS s)(ws := None) \<and>
      USER_ID_MAP (unregister_client ws s) = (USER_ID_MAP s)(user_id info := None)) \<and>
   (registry_consistent s \<and> CLIENTS s ws = None \<longrightarrow> unregister_client ws s = s)"
proof (intro conjI impI)
  show "registry_consistent init_state"
    by (rule views_match_consistent [OF views_match_init])
next
  assume a: "registry_consistent s \<and> CLIENTS s ws = None \<and>
    register_client ws room r s = Inr (b, s', acts)"
  then show "registry_consistent s'" using register_consistent by blast
  from a show "if b then (\<exists>info. CLIENTS s' = (CLIENTS s)(ws \<mapsto> info) \<and>
                    USER_ID_MAP s' = (USER_ID_MAP s)(user_id info \<mapsto> ws))
       else s' = s"
    using register_client_both_views by blast
next
  assume a: "registry_consistent s \<and> CLIENTS s ws = Some info"
  then show "registry_consistent (unregister_client ws s)"
    using unregister_consistent by blast
  from a show "CLIENTS (unregister_client ws s) = (CLIENTS s)(ws := None)"
    using unregister_both_views by blast
  from a show "USER_ID_MAP (unregister_client ws s) = (USER_ID_MAP s)(user_id info := None)"
    using unregister_both_views by blast
next
  assume "registry_consistent s \<and> CLIENTS s ws = None"
  then show "unregister_client ws s = s" by (simp add: unregister_client_def)
qed

lemma register_a:
  "register_client 10 ''lobby'' (Message (Json (JDict (register_msg ''a'' [JStr ''*''])))) init_state =
     Inr (True, state_a, [])"
  by (simp add: register_client_msg init_state_def state_a_def client_a_def)

lemma unregister_a: "unregister_client 10 state_a = init_state"
  by (simp add: unregister_client_def state_a_def init_state_def client_a_def)

theorem registry_views_stay_consistent_witness:
  "registry_consistent init_state \<and> CLIENTS init_state 10 = None \<and>
   register_client 10 ''lobby'' (Message (Json (JDict (register_msg ''a'' [JStr ''*''])))) init_state =
     Inr (True, state_a, []) \<and>
   registry_consistent state_a \<and> CLIENTS state_a 10 = Some client_a \<and>
   registry_consistent (unregister_client 10 state_a) \<and>
   unregister_client 10 state_a = init_state \<and>
   CLIENTS state_a 11 = None \<and> unregister_client 11 state_a = state_a"
proof -
  have i: "registry_consistent init_state"
    using registry_views_stay_consistent by blast
  have n: "CLIENTS init_state 10 = None" by (simp add: init_state_def)
  have a: "registry_consistent state_a"
    using registry_views_stay_consistent [of init_state 10 "''lobby''" _ True state_a "[]"]
      i n register_a by blast
  have c: "CLIENTS state_a 10 = Some client_a" "CLIENTS state_a 11 = None"
    by (simp_all add: state_a_def)
  have u: "registry_consistent (unregister_client 10 state_a)"
    using registry_views_stay_consistent [of state_a 10 _ _ _ _ _ client_a] a c by blast
  have v: "unregister_client 11 state_a = state_a"
    using registry_views_stay_consistent [of state_a 11] a c by blast
  show ?thesis using i n register_a a c u v unregister_a by simp
qed

text \<open>
  C8. A valid \<open>register\<close> message whose \<open>user_id\<close> is empty or already a key of
  \<open>USER_ID_MAP\<close> is answered by closing with code 1008; the result is \<open>False\<close> and
  the registry is unchanged. So in every reachable state two different connections never
  hold sessions with one \<open>user_id\<close>.
\<close>

theorem duplicate_user_id_rejected:
  "(validate_schema data \<and> map_of data ''type'' = Some (JStr ''register'') \<and>
    map_of data ''user_id'' = Some (JStr uid) \<and> (uid = [] \<or> USER_ID_MAP s uid \<noteq> None) \<longrightarrow>
      register_client ws room (Message (Json (JDict data))) s =
        Inr (False, s, [Close ws 1008 ''User ID is invalid or already in use.''])) \<and>
   (reachable s \<and> CLIENTS s c1 = Some i1 \<and> CLIENTS s c2 = Some i2 \<and> c1 \<noteq> c2 \<longrightarrow>
      user_id i1 \<noteq> user_id i2)"
proof (intro conjI impI)
  assume a: "validate_schema data \<and> map_of data ''type'' = Some (JStr ''register'') \<and>
    map_of data ''user_id'' = Some (JStr uid) \<and> (uid = [] \<or> USER_ID_MAP s uid \<noteq> None)"
  then obtain xs where "map_of data ''whitelist'' = Some (JList xs)"
    using validate_schema_cases [of data] by auto
  with a show "register_client ws room (Message (Json (JDict data))) s =
        Inr (False, s, [Close ws 1008 ''User ID is invalid or already in use.''])"
    by (auto simp: register_client_def)
next
  assume "reachable s \<and> CLIENTS s c1 = Some i1 \<and> CLIENTS s c2 = Some i2 \<and> c1 \<noteq> c2"
  then show "user_id i1 \<noteq> user_id i2"
    using views_match_inj [OF reachable_views_match] by blast
qed

theorem duplicate_user_id_rejected_witness:
  "validate_schema (register_msg ''a'' []) \<and>
   USER_ID_MAP state_ab ''a'' \<noteq> None \<and>
   register_client 12 ''lobby'' (Message (Json (JDict (register_msg ''a'' [])))) state_ab =
     Inr (False, state_ab, [Close 12 1008 ''User ID is invalid or already in use.'']) \<and>
   register_client 12 ''lobby'' (Message (Json (JDict (register_msg '''' [])))) state_ab =
     Inr (False, state_ab, [Close 12 1008 ''User ID is invalid or already in use.'']) \<and>
   reachable state_ab \<and> CLIENTS state_ab 10 = Some client_a \<and>
   CLIENTS state_ab 11 = Some client_b \<and> user_id client_a \<noteq> user_id client_b"
proof -
  have d: "USER_ID_MAP state_ab ''a'' \<noteq> None" by (simp add: state_ab_lookup)
  have 1: "register_client 12 ''lobby'' (Message (Json (JDict (register_msg ''a'' [])))) state_ab =
     Inr (False, state_ab, [Close 12 1008 ''User ID is invalid or already in use.''])"
    using duplicate_user_id_rejected [of "register_msg ''a'' []" "''a''" state_ab]
      validate_register_msg register_msg_fields d by blast
  have 2: "register_client 12 ''lobby'' (Message (Json (JDict (register_msg '''' [])))) state_ab =
     Inr (False, state_ab, [Close 12 1008 ''User ID is invalid or already in use.''])"
    using duplicate_user_id_rejected [of "register_msg '''' []" "''''" state_ab]
      validate_register_msg register_msg_fields by blast
  have 3: "user_id client_a \<noteq> user_id client_b"
    using duplicate_user_id_rejected [of _ _ state_ab _ _ 10 client_a 11 client_b]
      reachable_ab state_ab_lookup by simp
  show ?thesis using d 1 2 3 validate_register_msg reachable_ab state_ab_lookup by simp
qed

section \<open>Removing from the wildcard\<close>

lemma remove_on_wildcard:
  "handle_frame 10 (Json (JDict (remove_msg ''b''))) state_a =
     Inr (state_a_removed,
       [Send 10 (whitelist_updated (''User '' @ quote ''b'' @ '' was removed.'') (JDict []))])"
  by (simp add: handle_frame_def validate_schema_def schema_def remove_msg_def
      handle_whitelist_command_def state_a_def client_a_def whitelist_action_def
      set_whitelist_def state_a_removed_def)

lemma add_after_remove:
  "handle_frame 10 (Json (JDict (add_msg ''b''))) state_a_removed = Inl AttributeError"
  by (simp add: handle_frame_def validate_schema_def schema_def add_msg_def
      handle_whitelist_command_def client_a_def whitelist_action_def
      set_whitelist_def state_a_removed_def)

text \<open>
  C2, on the code. A holds the wildcard and sends \<open>whitelist_remove\<close>: line 195 stores
  \<open>{}\<close>, the empty dict, where the comment on \<open>CLIENTS\<close> (line 10) and
  \<open>handle_whitelist_toggle\<close> (\<open>set()\<close>) have a set. The acknowledgement then carries
  the dict, a JSON object and not an empty sequence, and the next \<open>whitelist_add\<close> of
  the same client raises \<open>AttributeError\<close> (a dict has no \<open>add\<close>), which ends its
  connection.
\<close>

theorem whitelist_remove_on_wildcard_stores_dict:
  "whitelist client_a = StarList \<and> CLIENTS state_a 10 = Some client_a \<and>
   handle_frame 10 (Json (JDict (remove_msg ''b''))) state_a =
     Inr (state_a_removed,
       [Send 10 (whitelist_updated (''User '' @ quote ''b'' @ '' was removed.'') (JDict []))]) \<and>
   map_option whitelist (CLIENTS state_a_removed 10) = Some EmptyDict \<and>
   EmptyDict \<noteq> SetOf [] \<and> JDict [] \<noteq> JList [] \<and>
   handle_frame 10 (Json (JDict (add_msg ''b''))) state_a_removed = Inl AttributeError"
proof -
  have "whitelist client_a = StarList" by (simp add: client_a_def)
  moreover have "CLIENTS state_a 10 = Some client_a" by (simp add: state_a_def)
  moreover have "map_option whitelist (CLIENTS state_a_removed 10) = Some EmptyDict"
    by (simp add: state_a_removed_def)
  ultimately show ?thesis using remove_on_wildcard add_after_remove by simp
qed

section \<open>The room name\<close>

lemma dropWhile_split:
  "\<exists>i. xs = replicate i a @ dropWhile (\<lambda>c. c = a) xs"
proof -
  have "\<forall>y\<in>set (takeWhile (\<lambda>c. c = a) xs). y = a"
    by (auto dest: set_takeWhileD)
  then have "replicate (length (takeWhile (\<lambda>c. c = a) xs)) a = takeWhile (\<lambda>c. c = a) xs"
    by (rule replicate_length_same)
  then have "replicate (length (takeWhile (\<lambda>c. c = a) xs)) a @ dropWhile (\<lambda>c. c = a) xs = xs"
    by simp
  then have "xs = replicate (length (takeWhile (\<lambda>c. c = a) xs)) a @ dropWhile (\<lambda>c. c = a) xs"
    by (rule sym)
  then show ?thesis by (rule exI)
qed

lemma split2:
  assumes "p = replicate i a @ q" and "rev q = replicate j a @ d"
  shows "p = replicate i a @ rev d @ replicate j a"
proof -
  from assms(2) have "rev (rev q) = rev (replicate j a @ d)" by (rule arg_cong)
  then have "q = rev d @ replicate j a" by simp
  with assms(1) show ?thesis by simp
qed

lemma strip_slash_split:
  "\<exists>i j. path = replicate i CHR ''/'' @ strip_slash path @ replicate j CHR ''/''"
proof -
  obtain i where i: "path = replicate i CHR ''/'' @ dropWhile (\<lambda>c. c = CHR ''/'') path"
    using dropWhile_split [of path "CHR ''/''"] by (rule exE)
  obtain j where j: "rev (dropWhile (\<lambda>c. c = CHR ''/'') path) =
      replicate j CHR ''/'' @ dropWhile (\<lambda>c. c = CHR ''/'') (rev (dropWhile (\<lambda>c. c = CHR ''/'') path))"
    using dropWhile_split [of "rev (dropWhile (\<lambda>c. c = CHR ''/'') path)" "CHR ''/''"] by (rule exE)
  have "path = replicate i CHR ''/'' @ strip_slash path @ replicate j CHR ''/''"
    unfolding strip_slash_def by (rule split2 [OF i j])
  then show ?thesis by (intro exI)
qed

lemma last_dropWhile_same:
  "dropWhile P xs \<noteq> [] \<Longrightarrow> last (dropWhile P xs) = last xs"
  by (induction xs) auto

lemma strip_ends:
  assumes "rev (dropWhile P (rev (dropWhile P p))) \<noteq> []"
  shows "\<not> P (hd (rev (dropWhile P (rev (dropWhile P p))))) \<and>
         \<not> P (last (rev (dropWhile P (rev (dropWhile P p)))))"
proof -
  have d: "dropWhile P (rev (dropWhile P p)) \<noteq> []" using assms by simp
  have q: "dropWhile P p \<noteq> []"
  proof
    assume "dropWhile P p = []"
    then have "dropWhile P (rev (dropWhile P p)) = []"
      by (simp only: rev.simps dropWhile.simps)
    with d show False by (rule notE)
  qed
  have 1: "\<not> P (hd (dropWhile P (rev (dropWhile P p))))"
    using d by (rule hd_dropWhile)
  have 2: "\<not> P (hd (dropWhile P p))"
    using q by (rule hd_dropWhile)
  have "last (dropWhile P (rev (dropWhile P p))) = last (rev (dropWhile P p))"
    using d by (rule last_dropWhile_same)
  also have "\<dots> = hd (dropWhile P p)" using q by (simp add: last_rev)
  finally have 3: "hd (rev (dropWhile P (rev (dropWhile P p)))) = hd (dropWhile P p)"
    using d by (simp add: hd_rev)
  have 4: "last (rev (dropWhile P (rev (dropWhile P p)))) =
      hd (dropWhile P (rev (dropWhile P p)))"
    using d by (simp add: last_rev)
  show ?thesis using 1 2 3 4 by simp
qed

lemma strip_slash_ends:
  assumes "strip_slash path \<noteq> []"
  shows "hd (strip_slash path) \<noteq> CHR ''/'' \<and> last (strip_slash path) \<noteq> CHR ''/''"
  using assms strip_ends [of "\<lambda>c. c = CHR ''/''" path] unfolding strip_slash_def by simp

lemma open_room_bound:
  assumes "main_handler_open ws path r s = Inr (True, s', acts)"
  shows "\<exists>info. CLIENTS s' ws = Some info \<and> room_name info = strip_slash path"
proof -
  from assms have reg: "register_client ws (strip_slash path) r s = Inr (True, s', acts)"
    by (simp add: main_handler_open_def Let_def split: if_splits)
  from register_client_cases [OF reg] show ?thesis by auto
qed

lemma open_no_room:
  assumes "strip_slash path = []"
  shows "main_handler_open ws path r s =
        Inr (False, s,
          [Close ws 1008 ''Room name must be provided in the URL path (e.g., /my-room).''])"
  using assms by (simp add: main_handler_open_def)

text \<open>
  C4 (as the code has it). The room name is the whole request path without its leading
  and trailing \<open>/\<close> characters: the path is slashes, the room name, slashes, and a
  room name that is not empty neither starts nor ends with \<open>/\<close>. When it is empty
  the connection is closed with code 1008, \<open>register_client\<close> is not called and the
  registry is unchanged; when the handler reaches its loop, the session of the connection
  holds that room name.
\<close>

theorem room_name_is_stripped_path:
  "(\<exists>i j. path = replicate i CHR ''/'' @ strip_slash path @ replicate j CHR ''/'') \<and>
   (strip_slash path \<noteq> [] \<longrightarrow>
      hd (strip_slash path) \<noteq> CHR ''/'' \<and> last (strip_slash path) \<noteq> CHR ''/'') \<and>
   (strip_slash path = [] \<longrightarrow>
      main_handler_open ws path r s =
        Inr (False, s,
          [Close ws 1008 ''Room name must be provided in the URL path (e.g., /my-room).''])) \<and>
   (main_handler_open ws path r s = Inr (True, s', acts) \<longrightarrow>
      (\<exists>info. CLIENTS s' ws = Some info \<and> room_name info = strip_slash path))"
proof (intro conjI impI)
  show "\<exists>i j. path = replicate i CHR ''/'' @ strip_slash path @ replicate j CHR ''/''"
    by (rule strip_slash_split)
next
  assume "strip_slash path \<noteq> []"
  then show "hd (strip_slash path) \<noteq> CHR ''/''" "last (strip_slash path) \<noteq> CHR ''/''"
    using strip_slash_ends by blast+
next
  assume "strip_slash path = []"
  then show "main_handler_open ws path r s =
        Inr (False, s,
          [Close ws 1008 ''Room name must be provided in the URL path (e.g., /my-room).''])"
    by (rule open_no_room)
next
  assume "main_handler_open ws path r s = Inr (True, s', acts)"
  then show "\<exists>info. CLIENTS s' ws = Some info \<and> room_name info = strip_slash path"
    by (rule open_room_bound)
qed

lemma strip_examples:
  "strip_slash ''//lobby/'' = ''lobby''" "strip_slash ''//'' = ''''"
  "strip_slash ''/a/b'' = ''a/b''"
  by (simp_all add: strip_slash_def)

lemma open_a_slashes:
  "main_handler_open 10 ''//lobby/'' (Message (Json (JDict (register_msg ''a'' [JStr ''*''])))) init_state =
     Inr (True, state_a, [])"
  by (simp add: main_handler_open_def strip_examples register_client_msg init_state_def
      state_a_def client_a_def)

theorem room_name_is_stripped_path_witness:
  "strip_slash ''//lobby/'' = ''lobby'' \<and> strip_slash ''//'' = '''' \<and>
   main_handler_open 10 ''//'' TimeoutError init_state =
     Inr (False, init_state,
       [Close 10 1008 ''Room name must be provided in the URL path (e.g., /my-room).'']) \<and>
   main_handler_open 10 ''//lobby/'' (Message (Json (JDict (register_msg ''a'' [JStr ''*''])))) init_state =
     Inr (True, state_a, []) \<and>
   map_option room_name (CLIENTS state_a 10) = Some ''lobby''"
proof -
  have 1: "main_handler_open 10 ''//'' TimeoutError init_state =
     Inr (False, init_state,
       [Close 10 1008 ''Room name must be provided in the URL path (e.g., /my-room).''])"
    using room_name_is_stripped_path [of "''//''" 10 TimeoutError init_state] strip_examples(2)
    by blast
  have "\<exists>info. CLIENTS state_a 10 = Some info \<and> room_name info = strip_slash ''//lobby/''"
    using room_name_is_stripped_path
      [of "''//lobby/''" 10 "Message (Json (JDict (register_msg ''a'' [JStr ''*''])))" init_state
        state_a "[]"] open_a_slashes
    by blast
  then have 2: "map_option room_name (CLIENTS state_a 10) = Some ''lobby''"
    by (auto simp: strip_examples)
  show ?thesis using 1 2 open_a_slashes strip_examples by simp
qed

text \<open>
  C4 as the specification words it fails: on the path \<open>/a/b\<close> the session's room is
  \<open>a/b\<close>, not the trailing segment \<open>b\<close>.
\<close>

theorem room_name_trailing_segment_counterexample:
  "main_handler_open 10 ''/a/b'' (Message (Json (JDict (register_msg ''a'' [JStr ''*''])))) init_state =
     Inr (True,
       \<lparr>CLIENTS = [10 \<mapsto> \<lparr>user_id = ''a'', room_name = ''a/b'', whitelist = StarList\<rparr>],
        USER_ID_MAP = [''a'' \<mapsto> 10]\<rparr>, []) \<and>
   trailing_segment ''/a/b'' = ''b'' \<and> ''a/b'' \<noteq> trailing_segment ''/a/b''"
  by (simp add: main_handler_open_def strip_examples register_client_msg init_state_def
      trailing_segment_def)

section \<open>The shape of a whitelist\<close>






























end
